theory Spec2Isabelle
  imports Main "HOL-Library.Word" "HOL-Library.Multiset"
begin

section \<open>Library values used by gotodo\<close>

subsection \<open>time.Time\<close>

text \<open>
  A Go \<open>time.Time\<close> is modelled by the instant it denotes: the number of nanoseconds
  since the zero time, January 1 of year 1, 00:00:00 UTC. The zero value \<open>time.Time{}\<close> is
  that instant. \<open>Before\<close>, \<open>Equal\<close> and \<open>Compare\<close> of the library compare instants; the
  location and the monotonic reading a Go value also carries are not modelled.
  Every call of \<open>time.Now()\<close> in the source is an argument of the model.
\<close>

type_synonym time = int

definition zeroTime :: time where
  "zeroTime = 0"

definition Nanosecond :: int where
  "Nanosecond = 1"

definition Second :: int where
  "Second = 1000000000 * Nanosecond"

definition Hour :: int where
  "Hour = 3600 * Second"

definition Before :: "time \<Rightarrow> time \<Rightarrow> bool" where
  "Before t u = (t < u)"

definition Equal :: "time \<Rightarrow> time \<Rightarrow> bool" where
  "Equal t u = (t = u)"

definition Compare :: "time \<Rightarrow> time \<Rightarrow> int" where
  "Compare t u = (if t < u then - 1 else if u < t then 1 else 0)"

text \<open>
  \<open>t.Round(d)\<close>: the library documents it as rounding \<open>t\<close> to the nearest multiple of
  \<open>d\<close> since the zero time, halfway values rounding up, on the absolute duration since
  the zero time (not on the presentation form); \<open>d \<le> 0\<close> returns \<open>t\<close>. It computes
  the remainder \<open>r\<close> of \<open>t\<close> by \<open>d\<close> and returns \<open>t - r\<close> when \<open>r + r < d\<close>, and
  \<open>t + (d - r)\<close> otherwise.
\<close>

definition Round :: "time \<Rightarrow> int \<Rightarrow> time" where
  "Round t d =
     (if d \<le> 0 then t
      else let r = t mod d in if r + r < d then t - r else t + (d - r))"

text \<open>The civil calendar of the library, for dates written as year, month, day in UTC.\<close>

definition isLeap :: "int \<Rightarrow> bool" where
  "isLeap year = (year mod 4 = 0 \<and> (year mod 100 \<noteq> 0 \<or> year mod 400 = 0))"

definition daysIn :: "int \<Rightarrow> int \<Rightarrow> int" where
  "daysIn m year =
     (if m = 2 then (if isLeap year then 29 else 28)
      else if m = 4 \<or> m = 6 \<or> m = 9 \<or> m = 11 then 30 else 31)"

definition daysBefore :: "int \<Rightarrow> int" where
  "daysBefore m =
     (if m = 1 then 0 else if m = 2 then 31 else if m = 3 then 59 else if m = 4 then 90
      else if m = 5 then 120 else if m = 6 then 151 else if m = 7 then 181
      else if m = 8 then 212 else if m = 9 then 243 else if m = 10 then 273
      else if m = 11 then 304 else 334)"

definition daysSinceEpoch :: "int \<Rightarrow> int \<Rightarrow> int \<Rightarrow> int" where
  "daysSinceEpoch year m day =
     (let y = year - 1
      in 365 * y + y div 4 - y div 100 + y div 400
         + daysBefore m + (if isLeap year \<and> 3 \<le> m then 1 else 0) + (day - 1))"

text \<open>
  \<open>time.Date(year, month, day, hour, min, sec, 0, time.UTC)\<close> for a month in 1..12 and
  values in range.
\<close>

definition Date :: "int \<Rightarrow> int \<Rightarrow> int \<Rightarrow> int \<Rightarrow> int \<Rightarrow> int \<Rightarrow> time" where
  "Date year m day hour minute sec =
     (daysSinceEpoch year m day * 24 + hour) * Hour + (minute * 60 + sec) * Second"

text \<open>The start of the UTC calendar day an instant lies in, and the day's number.\<close>

definition startOfDay :: "time \<Rightarrow> time" where
  "startOfDay t = t - t mod (Hour * 24)"

definition calendarDay :: "time \<Rightarrow> int" where
  "calendarDay t = t div (Hour * 24)"

subsection \<open>Text\<close>

definition isDigit :: "char \<Rightarrow> bool" where
  "isDigit c = (48 \<le> (of_char c :: nat) \<and> (of_char c :: nat) \<le> 57)"

definition digitVal :: "char \<Rightarrow> nat" where
  "digitVal c = of_char c - 48"

text \<open>
  \<open>time.Parse("2006-01-02", s)\<close>. The layout is a four-digit year, a two-digit month
  and a two-digit day with \<open>-\<close> between them; text left over is an error, a month
  outside 1..12 is an error, and the day is checked against the month and year once
  the text is read. With no zone in the layout the result is in UTC, at midnight.
\<close>

definition ParseDate :: "string \<Rightarrow> time option" where
  "ParseDate s =
     (case s of
        [y1, y2, y3, y4, s1, m1, m2, s2, d1, d2] \<Rightarrow>
          if isDigit y1 \<and> isDigit y2 \<and> isDigit y3 \<and> isDigit y4 \<and> s1 = CHR ''-''
             \<and> isDigit m1 \<and> isDigit m2 \<and> s2 = CHR ''-'' \<and> isDigit d1 \<and> isDigit d2
          then
            let year = int (((digitVal y1 * 10 + digitVal y2) * 10 + digitVal y3) * 10
                            + digitVal y4);
                m = int (digitVal m1 * 10 + digitVal m2);
                day = int (digitVal d1 * 10 + digitVal d2)
            in if m \<le> 0 \<or> 12 < m then None
               else if day < 1 \<or> daysIn m year < day then None
               else Some (Date year m day 0 0 0)
          else None
      | _ \<Rightarrow> None)"

text \<open>
  \<open>strconv.ParseUint(s, 10, bitSize)\<close> and \<open>strconv.ParseInt(s, 10, bitSize)\<close>. The
  unsigned loop reads the bytes left to right in a 64-bit unsigned accumulator: a byte
  that is no decimal digit is a syntax error, an accumulator at or above the cutoff (the
  least number whose tenfold exceeds the 64-bit maximum) is a range error, and so is a
  sum that wraps around or exceeds \<open>2 ^ bitSize - 1\<close>. \<open>ParseInt\<close> takes one leading
  sign off, calls the unsigned parser, and checks the result against \<open>2 ^ (bitSize - 1)\<close>.
  In base 10 underscores are not accepted.
\<close>

datatype numError = ErrSyntax | ErrRange

definition maxUint64 :: nat where
  "maxUint64 = 2 ^ 64 - 1"

fun parseUintLoop :: "nat \<Rightarrow> nat \<Rightarrow> string \<Rightarrow> numError + nat" where
  "parseUintLoop maxVal n [] = Inr n"
| "parseUintLoop maxVal n (c # cs) =
     (if \<not> isDigit c then Inl ErrSyntax
      else if maxUint64 div 10 + 1 \<le> n then Inl ErrRange
      else
        let n10 = (n * 10) mod 2 ^ 64;
            n1 = (n10 + digitVal c) mod 2 ^ 64
        in if n1 < n10 \<or> maxVal < n1 then Inl ErrRange
           else parseUintLoop maxVal n1 cs)"

definition ParseUint :: "string \<Rightarrow> nat \<Rightarrow> numError + nat" where
  "ParseUint s bitSize =
     (if s = [] then Inl ErrSyntax else parseUintLoop (2 ^ bitSize - 1) 0 s)"

fun ParseInt :: "string \<Rightarrow> nat \<Rightarrow> numError + int" where
  "ParseInt [] bitSize = Inl ErrSyntax"
| "ParseInt (c # cs) bitSize =
     (let neg = (c = CHR ''-'');
          s = (if c = CHR ''+'' \<or> c = CHR ''-'' then cs else c # cs)
      in case ParseUint s bitSize of
           Inl ErrSyntax \<Rightarrow> Inl ErrSyntax
         | r \<Rightarrow>
             let un = (case r of Inr n \<Rightarrow> n | Inl _ \<Rightarrow> 2 ^ bitSize - 1);
                 cutoff = (2::nat) ^ (bitSize - 1)
             in if \<not> neg \<and> cutoff \<le> un then Inl ErrRange
                else if neg \<and> cutoff < un then Inl ErrRange
                else Inr (if neg then - int un else int un))"

text \<open>\<open>strconv.Atoi(s)\<close> is \<open>ParseInt(s, 10, 0)\<close> with the 64-bit \<open>int\<close>.\<close>

definition Atoi :: "string \<Rightarrow> numError + int" where
  "Atoi s = ParseInt s 64"

text \<open>
  \<open>strings.TrimSpace\<close> removes leading and trailing white space as Unicode defines it
  (\<open>unicode.IsSpace\<close>), on text in UTF-8: the six ASCII characters tab, line feed,
  vertical tab, form feed, carriage return and space; U+0085 and U+00A0 (two bytes); and
  U+1680, U+2000..U+200A, U+2028, U+2029, U+202F, U+205F and U+3000 (three bytes). A
  byte sequence that is not valid UTF-8 is no white space.
\<close>

definition asciiSpace :: "char \<Rightarrow> bool" where
  "asciiSpace c = ((9 \<le> (of_char c :: nat) \<and> (of_char c :: nat) \<le> 13) \<or> (of_char c :: nat) = 32)"

definition isSpace2 :: "char \<Rightarrow> char \<Rightarrow> bool" where
  "isSpace2 c1 c2 =
     ((of_char c1 :: nat) = 194 \<and> ((of_char c2 :: nat) = 133 \<or> (of_char c2 :: nat) = 160))"

definition isSpace3 :: "char \<Rightarrow> char \<Rightarrow> char \<Rightarrow> bool" where
  "isSpace3 c1 c2 c3 =
     (let b1 = (of_char c1 :: nat); b2 = (of_char c2 :: nat); b3 = (of_char c3 :: nat)
      in (b1 = 225 \<and> b2 = 154 \<and> b3 = 128)
         \<or> (b1 = 226 \<and> b2 = 128
              \<and> ((128 \<le> b3 \<and> b3 \<le> 138) \<or> b3 = 168 \<or> b3 = 169 \<or> b3 = 175))
         \<or> (b1 = 226 \<and> b2 = 129 \<and> b3 = 159)
         \<or> (b1 = 227 \<and> b2 = 128 \<and> b3 = 128))"

fun TrimLeft :: "string \<Rightarrow> string" where
  "TrimLeft [] = []"
| "TrimLeft (c1 # cs) =
     (if asciiSpace c1 then TrimLeft cs
      else (case cs of
              [] \<Rightarrow> [c1]
            | c2 # cs2 \<Rightarrow>
                (if isSpace2 c1 c2 then TrimLeft cs2
                 else (case cs2 of
                         [] \<Rightarrow> [c1, c2]
                       | c3 # cs3 \<Rightarrow>
                           (if isSpace3 c1 c2 c3 then TrimLeft cs3 else c1 # c2 # c3 # cs3)))))"

text \<open>The same from the end, on the reversed text: its first byte is the text's last.\<close>

fun TrimRightRev :: "string \<Rightarrow> string" where
  "TrimRightRev [] = []"
| "TrimRightRev (c1 # cs) =
     (if asciiSpace c1 then TrimRightRev cs
      else (case cs of
              [] \<Rightarrow> [c1]
            | c2 # cs2 \<Rightarrow>
                (if isSpace2 c2 c1 then TrimRightRev cs2
                 else (case cs2 of
                         [] \<Rightarrow> [c1, c2]
                       | c3 # cs3 \<Rightarrow>
                           (if isSpace3 c3 c2 c1 then TrimRightRev cs3 else c1 # c2 # c3 # cs3)))))"

definition TrimSpace :: "string \<Rightarrow> string" where
  "TrimSpace s = rev (TrimRightRev (rev (TrimLeft s)))"

text \<open>
  \<open>sort.Slice(x, less)\<close> sorts the slice \<open>x\<close> in place. The library (its
  pattern-defeating quicksort, Go 1.19 and later) sorts a slice of at most twelve
  elements by insertion: for each position from the second on, the element there is
  swapped with its left neighbour as long as it is less than the neighbour.
  \<open>insertSorted\<close> takes the sorted part in reverse, the nearest neighbour first.
  What the library does with a longer slice (pivots, partitions, a fallback to heap sort)
  is not modelled: it is the parameter \<open>pdqsort\<close>, and \<open>sortContract\<close> is what the
  library documents of it. The sort only swaps elements, so its result is a permutation;
  and when \<open>less\<close> is a transitive ordering as the library requires (irreflexive,
  transitive, and with a transitive negation), no element of the result is less than an
  element before it. The order of elements that compare as equal is not determined.
\<close>

fun insertSorted :: "('a \<Rightarrow> 'a \<Rightarrow> bool) \<Rightarrow> 'a \<Rightarrow> 'a list \<Rightarrow> 'a list" where
  "insertSorted lessFn x [] = [x]"
| "insertSorted lessFn x (y # ys) =
     (if lessFn x y then y # insertSorted lessFn x ys else x # y # ys)"

definition insertionSort :: "('a \<Rightarrow> 'a \<Rightarrow> bool) \<Rightarrow> 'a list \<Rightarrow> 'a list" where
  "insertionSort lessFn xs = rev (foldl (\<lambda>done x. insertSorted lessFn x done) [] xs)"

definition SortSlice ::
  "(('a \<Rightarrow> 'a \<Rightarrow> bool) \<Rightarrow> 'a list \<Rightarrow> 'a list) \<Rightarrow> ('a \<Rightarrow> 'a \<Rightarrow> bool) \<Rightarrow> 'a list \<Rightarrow> 'a list" where
  "SortSlice pdqsort lessFn xs =
     (if length xs \<le> 12 then insertionSort lessFn xs else pdqsort lessFn xs)"

definition transitiveOrdering :: "('a \<Rightarrow> 'a \<Rightarrow> bool) \<Rightarrow> bool" where
  "transitiveOrdering lessFn =
     ((\<forall>a. \<not> lessFn a a)
      \<and> (\<forall>a b c. lessFn a b \<and> lessFn b c \<longrightarrow> lessFn a c)
      \<and> (\<forall>a b c. \<not> lessFn a b \<and> \<not> lessFn b c \<longrightarrow> \<not> lessFn a c))"

definition sortContract :: "(('a \<Rightarrow> 'a \<Rightarrow> bool) \<Rightarrow> 'a list \<Rightarrow> 'a list) \<Rightarrow> bool" where
  "sortContract srt =
     (\<forall>lessFn xs.
        mset (srt lessFn xs) = mset xs
        \<and> (transitiveOrdering lessFn \<longrightarrow> sorted_wrt (\<lambda>a b. \<not> lessFn b a) (srt lessFn xs)))"

section \<open>The task record and its patch (main.go)\<close>

type_synonym int8 = "8 word"

record Todo =
  Priority :: int8
  Deadline :: time
  AddedAt :: time
  DoneAt :: time
  Done :: bool
  Summary :: string
  Details :: string

text \<open>The fields of \<open>TodoPatch\<close> are pointers: \<open>nil\<close> is \<open>None\<close>.\<close>

record TodoPatch =
  patchDone :: "bool option"
  patchSummary :: "string option"
  patchDetails :: "string option"
  patchPriority :: "int8 option"
  patchDeadline :: "time option"

text \<open>The errors the operations return, by their texts, and the messages of success.\<close>

datatype error =
    SummaryRequired
  | InvalidDeadlineFormat
  | DeadlineBeforeToday
  | InvalidPriorityFormat
  | PriorityOutOfRange
  | SummaryCannotBeEmpty
  | DeadlineRequired
  | InvalidPriority

datatype message =
    TodoAdded
  | NoTodoFound string
  | UpdatedTodos nat string
  | DeletedTodos nat string

section \<open>Validation and conversion (main.go)\<close>

definition isValidPriority :: "int8 \<Rightarrow> bool" where
  "isValidPriority p = (1 \<le>s p \<and> p \<le>s 5)"

text \<open>\<open>now\<close> is the reading of \<open>time.Now()\<close> in the function.\<close>

definition isValidDeadline :: "time \<Rightarrow> time \<Rightarrow> bool" where
  "isValidDeadline now t = (let now' = Round now (Hour * 24) in 0 \<le> Compare t now')"

definition stringToPriority :: "string \<Rightarrow> error + int8 option" where
  "stringToPriority s =
     (if s = [] then Inr None
      else case ParseInt s 8 of
             Inl err \<Rightarrow> Inl InvalidPriorityFormat
           | Inr p \<Rightarrow> Inr (Some (word_of_int p)))"

definition stringToDeadline :: "string \<Rightarrow> error + time option" where
  "stringToDeadline s =
     (if s = [] then Inr None
      else case ParseDate s of
             None \<Rightarrow> Inl InvalidDeadlineFormat
           | Some dl \<Rightarrow> Inr (Some dl))"

section \<open>Ordering for display (main.go)\<close>

text \<open>The comparison function \<open>sortTodos\<close> hands to \<open>sort.Slice\<close>.\<close>

definition sortTodosLess :: "Todo \<Rightarrow> Todo \<Rightarrow> bool" where
  "sortTodosLess a b =
     (if Done a \<noteq> Done b then \<not> Done a \<and> Done b
      else if Done a \<and> Done b then Before (DoneAt a) (DoneAt b)
      else if \<not> Equal (Deadline a) (Deadline b) then Before (Deadline a) (Deadline b)
      else if Priority a \<noteq> Priority b then Priority b <s Priority a
      else Before (AddedAt a) (AddedAt b))"

text \<open>
  \<open>sortTodos\<close> makes a slice of the argument's length, copies the argument into it and
  sorts the new slice in place. Whether the argument is written to depends on which slice
  the sort works on, so here the slices live in a store: a slice is the index of its
  array in the store, \<open>make\<close> appends an array of zero values, \<open>copy\<close> writes the
  first \<open>min (len dst) (len src)\<close> elements of \<open>dst\<close>, and the sort replaces the array
  at the index it is given. \<open>sortTodos\<close> returns the store after the call and the slice
  it returns.
\<close>

type_synonym store = "Todo list list"

definition zeroTodo :: Todo where
  "zeroTodo = \<lparr>Priority = 0, Deadline = zeroTime, AddedAt = zeroTime, DoneAt = zeroTime,
                Done = False, Summary = [], Details = []\<rparr>"

definition makeTodos :: "store \<Rightarrow> nat \<Rightarrow> store \<times> nat" where
  "makeTodos st n = (st @ [replicate n zeroTodo], length st)"

definition copyTodos :: "store \<Rightarrow> nat \<Rightarrow> nat \<Rightarrow> store" where
  "copyTodos st dst src =
     (let n = min (length (st ! dst)) (length (st ! src))
      in st[dst := take n (st ! src) @ drop n (st ! dst)])"

definition sortSliceTodos ::
  "((Todo \<Rightarrow> Todo \<Rightarrow> bool) \<Rightarrow> Todo list \<Rightarrow> Todo list) \<Rightarrow> store \<Rightarrow> nat \<Rightarrow> store" where
  "sortSliceTodos pdqsort st x = st[x := SortSlice pdqsort sortTodosLess (st ! x)]"

definition sortTodos ::
  "((Todo \<Rightarrow> Todo \<Rightarrow> bool) \<Rightarrow> Todo list \<Rightarrow> Todo list) \<Rightarrow> store \<Rightarrow> nat \<Rightarrow> store \<times> nat" where
  "sortTodos pdqsort st todos =
     (let (st1, sorted) = makeTodos st (length (st ! todos));
          st2 = copyTodos st1 sorted todos;
          st3 = sortSliceTodos pdqsort st2 sorted
      in (st3, sorted))"

section \<open>Mutations (main.go)\<close>

text \<open>
  The body of the loop of \<open>patchTodos\<close> for a record whose summary matched: the
  assignments in the order of the source.
\<close>

definition patchTodo :: "time \<Rightarrow> TodoPatch \<Rightarrow> Todo \<Rightarrow> Todo" where
  "patchTodo now patch t =
     (let t1 = (case patchDone patch of
                  None \<Rightarrow> t
                | Some d \<Rightarrow>
                    if d then
                      (if \<not> Done t then t\<lparr>DoneAt := now, Done := True\<rparr>
                       else t\<lparr>Done := False, DoneAt := zeroTime\<rparr>)
                    else t);
          t2 = (case patchSummary patch of None \<Rightarrow> t1 | Some v \<Rightarrow> t1\<lparr>Summary := v\<rparr>);
          t3 = (case patchDetails patch of None \<Rightarrow> t2 | Some v \<Rightarrow> t2\<lparr>Details := v\<rparr>);
          t4 = (case patchPriority patch of None \<Rightarrow> t3 | Some v \<Rightarrow> t3\<lparr>Priority := v\<rparr>);
          t5 = (case patchDeadline patch of None \<Rightarrow> t4 | Some v \<Rightarrow> t4\<lparr>Deadline := v\<rparr>)
      in t5)"

text \<open>
  \<open>patchTodos\<close> writes to the slice it is given and returns the count; the model
  returns the slice after the loop together with the count. \<open>now\<close> is read once,
  before the loop.
\<close>

fun patchTodos :: "Todo list \<Rightarrow> time \<Rightarrow> string \<Rightarrow> TodoPatch \<Rightarrow> Todo list \<times> nat" where
  "patchTodos [] now match patch = ([], 0)"
| "patchTodos (t # ts) now match patch =
     (let (ts', updated) = patchTodos ts now match patch
      in if Summary t \<noteq> match then (t # ts', updated)
         else (patchTodo now patch t # ts', updated + 1))"

fun deleteLoop :: "Todo list \<Rightarrow> string \<Rightarrow> Todo list \<Rightarrow> nat \<Rightarrow> Todo list \<times> nat" where
  "deleteLoop [] summary out deleted = (out, deleted)"
| "deleteLoop (t # ts) summary out deleted =
     (if Summary t = summary then deleteLoop ts summary out (deleted + 1)
      else deleteLoop ts summary (out @ [t]) deleted)"

definition deleteTodos :: "Todo list \<Rightarrow> string \<Rightarrow> Todo list \<times> nat" where
  "deleteTodos todos summary = deleteLoop todos summary [] 0"

fun findFirstTodo :: "Todo list \<Rightarrow> string \<Rightarrow> Todo option" where
  "findFirstTodo [] summary = None"
| "findFirstTodo (t # ts) summary =
     (if Summary t = summary then Some t else findFirstTodo ts summary)"

text \<open>
  The operations take the collection and return it with their result; on an error the
  collection is returned as it was given. The lock and the writing of the file by
  \<open>dump\<close> are outside the model. \<open>addTodoOperation\<close> reads the clock three times: for
  the default deadline, in \<open>isValidDeadline\<close> (when a deadline is given) and for
  \<open>AddedAt\<close>; \<open>setTodoOperation\<close> reads it in \<open>isValidDeadline\<close> and in \<open>patchTodos\<close>.
\<close>

definition addTodoOperation ::
  "Todo list \<Rightarrow> time \<Rightarrow> time \<Rightarrow> time \<Rightarrow> string \<Rightarrow> string \<Rightarrow> string \<Rightarrow> string
     \<Rightarrow> Todo list \<times> (error + message)" where
  "addTodoOperation todos nowDefault nowCheck nowAdded summary details deadlineStr priorityStr =
     (if TrimSpace summary = [] then (todos, Inl SummaryRequired)
      else case stringToDeadline deadlineStr of
        Inl err \<Rightarrow> (todos, Inl err)
      | Inr deadline \<Rightarrow>
          (let dl0 = Round nowDefault (Hour * 24)
           in if (case deadline of None \<Rightarrow> False | Some d \<Rightarrow> \<not> isValidDeadline nowCheck d)
              then (todos, Inl DeadlineBeforeToday)
              else
                let dl = (case deadline of None \<Rightarrow> dl0 | Some d \<Rightarrow> d)
                in case stringToPriority priorityStr of
                     Inl err \<Rightarrow> (todos, Inl err)
                   | Inr priority \<Rightarrow>
                       if (case priority of None \<Rightarrow> False | Some v \<Rightarrow> \<not> isValidPriority v)
                       then (todos, Inl PriorityOutOfRange)
                       else
                         let p = (case priority of None \<Rightarrow> 1 | Some v \<Rightarrow> v);
                             newTodo = \<lparr>Priority = p, Deadline = dl, AddedAt = nowAdded,
                                        DoneAt = zeroTime, Done = False,
                                        Summary = TrimSpace summary, Details = details\<rparr>
                         in (todos @ [newTodo], Inr TodoAdded)))"

definition deleteTodoOperation :: "Todo list \<Rightarrow> string \<Rightarrow> Todo list \<times> message" where
  "deleteTodoOperation todos summary =
     (let (newTodos, removed) = deleteTodos todos summary;
          todos' = (if 0 < removed then newTodos else todos)
      in if removed = 0 then (todos', NoTodoFound summary)
         else (todos', DeletedTodos removed summary))"

definition setTodoOperation ::
  "Todo list \<Rightarrow> time \<Rightarrow> time \<Rightarrow> string \<Rightarrow> TodoPatch \<Rightarrow> Todo list \<times> (error + message)" where
  "setTodoOperation todos nowCheck nowPatch match patch =
     (if (case patchPriority patch of None \<Rightarrow> False | Some p \<Rightarrow> \<not> isValidPriority p)
      then (todos, Inl PriorityOutOfRange)
      else if (case patchDeadline patch of None \<Rightarrow> False
               | Some d \<Rightarrow> \<not> isValidDeadline nowCheck d)
      then (todos, Inl DeadlineBeforeToday)
      else if (case patchSummary patch of None \<Rightarrow> False | Some v \<Rightarrow> TrimSpace v = [])
      then (todos, Inl SummaryCannotBeEmpty)
      else
        let (todos', updated) = patchTodos todos nowPatch match patch
        in if updated = 0 then (todos', Inr (NoTodoFound match))
           else (todos', Inr (UpdatedTodos updated match)))"

section \<open>The earlier creation path (the variant with \<open>createTodo\<close>)\<close>

text \<open>
  The variant of the program that builds the record in \<open>createTodo\<close> validates inside
  its parsers, \<open>parsePriority\<close> and \<open>parseDeadline\<close>.
\<close>

definition parsePriority :: "string \<Rightarrow> error + int8 option" where
  "parsePriority s =
     (if s = [] then Inr None
      else case Atoi s of
             Inl err \<Rightarrow> Inl InvalidPriority
           | Inr p \<Rightarrow>
               if p < 1 \<or> 5 < p then Inl PriorityOutOfRange
               else Inr (Some (word_of_int p)))"

definition parseDeadline :: "time \<Rightarrow> string \<Rightarrow> error + time option" where
  "parseDeadline now s =
     (if s = [] then Inr None
      else case ParseDate s of
             None \<Rightarrow> Inl InvalidDeadlineFormat
           | Some dl \<Rightarrow>
               let now' = Round now (Hour * 24)
               in if Compare dl now' = - 1 then Inl DeadlineBeforeToday
                  else Inr (Some dl))"

definition createTodo ::
  "time \<Rightarrow> time \<Rightarrow> string \<Rightarrow> string \<Rightarrow> string \<Rightarrow> string \<Rightarrow> error + Todo" where
  "createTodo nowCheck nowAdded summary details deadlineStr priorityStr =
     (if TrimSpace summary = [] then Inl SummaryRequired
      else case parseDeadline nowCheck deadlineStr of
        Inl err \<Rightarrow> Inl err
      | Inr None \<Rightarrow> Inl DeadlineRequired
      | Inr (Some deadline) \<Rightarrow>
          (case parsePriority priorityStr of
             Inl err \<Rightarrow> Inl err
           | Inr priority \<Rightarrow>
               let p = (case priority of None \<Rightarrow> 1 | Some v \<Rightarrow> v)
               in Inr \<lparr>Priority = p, Deadline = deadline, AddedAt = nowAdded,
                        DoneAt = zeroTime, Done = False,
                        Summary = TrimSpace summary, Details = details\<rparr>))"

section \<open>Notions of the specification\<close>

text \<open>
  The completion invariant of a task: it is done exactly when \<open>doneAt\<close> is set.
\<close>

definition completionInv :: "Todo \<Rightarrow> bool" where
  "completionInv t = (Done t \<longleftrightarrow> DoneAt t \<noteq> zeroTime)"

text \<open>
  A text that reads as an integer: an optional sign and then one or more decimal digits;
  its value is read off the digits by Horner's rule.
\<close>

definition digitsValue :: "string \<Rightarrow> nat" where
  "digitsValue ds = foldl (\<lambda>a c. a * 10 + digitVal c) 0 ds"

definition isDigits :: "string \<Rightarrow> bool" where
  "isDigits ds = (ds \<noteq> [] \<and> list_all isDigit ds)"

fun isIntText :: "string \<Rightarrow> bool" where
  "isIntText [] = False"
| "isIntText (c # cs) =
     (if c = CHR ''+'' \<or> c = CHR ''-'' then isDigits cs else isDigits (c # cs))"

fun intValue :: "string \<Rightarrow> int" where
  "intValue [] = 0"
| "intValue (c # cs) =
     (if c = CHR ''-'' then - int (digitsValue cs)
      else if c = CHR ''+'' then int (digitsValue cs)
      else int (digitsValue (c # cs)))"

text \<open>A patch with no field set.\<close>

definition emptyPatch :: TodoPatch where
  "emptyPatch = \<lparr>patchDone = None, patchSummary = None, patchDetails = None,
                  patchPriority = None, patchDeadline = None\<rparr>"

section \<open>Sample values\<close>

text \<open>Two tasks of a collection used in the scenarios, and the instants they run at.\<close>

definition buyMilk :: Todo where
  "buyMilk = \<lparr>Priority = 2, Deadline = Date 2024 3 20 0 0 0, AddedAt = Date 2024 3 1 9 30 0,
               DoneAt = zeroTime, Done = False, Summary = ''buy milk'', Details = ''2 litres''\<rparr>"

definition callMum :: Todo where
  "callMum = \<lparr>Priority = 4, Deadline = Date 2024 3 18 0 0 0, AddedAt = Date 2024 3 2 8 0 0,
               DoneAt = Date 2024 3 10 17 45 0, Done = True, Summary = ''Buy milk'',
               Details = ''call mum''\<rparr>"

definition afternoon :: time where
  "afternoon = Date 2024 3 15 13 0 0"

definition morning :: time where
  "morning = Date 2024 3 15 11 0 0"

text \<open>The four tasks of the ordering scenario.\<close>

definition taskA :: Todo where
  "taskA = \<lparr>Priority = 3, Deadline = Date 2024 1 1 0 0 0, AddedAt = Date 2023 12 1 10 0 0,
             DoneAt = zeroTime, Done = False, Summary = ''A'', Details = ''''\<rparr>"

definition taskB :: Todo where
  "taskB = \<lparr>Priority = 5, Deadline = Date 2024 1 1 0 0 0, AddedAt = Date 2023 12 2 10 0 0,
             DoneAt = zeroTime, Done = False, Summary = ''B'', Details = ''''\<rparr>"

definition taskC :: Todo where
  "taskC = \<lparr>Priority = 1, Deadline = Date 2023 2 1 0 0 0, AddedAt = Date 2022 12 3 10 0 0,
             DoneAt = Date 2023 1 1 0 0 0, Done = True, Summary = ''C'', Details = ''''\<rparr>"

definition taskD :: Todo where
  "taskD = \<lparr>Priority = 1, Deadline = Date 2023 7 1 0 0 0, AddedAt = Date 2022 12 4 10 0 0,
             DoneAt = Date 2023 6 1 0 0 0, Done = True, Summary = ''D'', Details = ''''\<rparr>"

section \<open>Facts about the library values\<close>

lemmas time_defs =
  Date_def Hour_def Second_def Nanosecond_def daysSinceEpoch_def daysBefore_def isLeap_def

lemma day_positive: "0 < Hour * 24"
  by (simp add: Hour_def Second_def Nanosecond_def)

lemma Round_day_cases:
  "Round now (Hour * 24) =
     (if 2 * (now mod (Hour * 24)) < Hour * 24 then startOfDay now
      else startOfDay now + Hour * 24)"
  using day_positive by (auto simp: Round_def Let_def startOfDay_def)

lemma Round_day_ge: "startOfDay now \<le> Round now (Hour * 24)"
  using day_positive by (simp add: Round_day_cases)

lemma startOfDay_calendarDay: "startOfDay t = Hour * 24 * calendarDay t"
  by (simp add: startOfDay_def calendarDay_def minus_mod_eq_mult_div)

lemma before_next_day: "t < Hour * 24 * (calendarDay t + 1)"
proof -
  have "t = Hour * 24 * (t div (Hour * 24)) + t mod (Hour * 24)"
    by simp
  moreover have "t mod (Hour * 24) < Hour * 24"
    using day_positive by simp
  ultimately show ?thesis
    unfolding calendarDay_def by (simp add: algebra_simps)
qed

lemma earlier_day_invalid:
  assumes "calendarDay d < calendarDay now"
  shows "\<not> isValidDeadline now d"
proof -
  have "calendarDay d + 1 \<le> calendarDay now"
    using assms by simp
  then have "Hour * 24 * (calendarDay d + 1) \<le> Hour * 24 * calendarDay now"
    using day_positive by simp
  with before_next_day [of d] have "d < startOfDay now"
    by (simp add: startOfDay_calendarDay)
  with Round_day_ge [of now] have "d < Round now (Hour * 24)"
    by linarith
  then show ?thesis
    by (simp add: isValidDeadline_def Compare_def)
qed

text \<open>
  What \<open>isValidDeadline\<close> decides: before noon (UTC) the deadline's calendar day must be
  today's or later; from noon on it must be later than today's.
\<close>

lemma calendarDay_le_iff: "startOfDay now \<le> t \<longleftrightarrow> calendarDay now \<le> calendarDay t"
proof
  assume "startOfDay now \<le> t"
  then have "Hour * 24 * calendarDay now \<le> t"
    by (simp add: startOfDay_calendarDay)
  with before_next_day [of t] have "Hour * 24 * calendarDay now < Hour * 24 * (calendarDay t + 1)"
    by linarith
  with day_positive have "calendarDay now < calendarDay t + 1"
    by (simp add: mult_less_cancel_left_pos)
  then show "calendarDay now \<le> calendarDay t"
    by simp
next
  assume "calendarDay now \<le> calendarDay t"
  with day_positive have "Hour * 24 * calendarDay now \<le> Hour * 24 * calendarDay t"
    by simp
  moreover have "Hour * 24 * calendarDay t \<le> t"
  proof -
    have "0 \<le> t mod (Hour * 24)"
      using day_positive by simp
    then have "startOfDay t \<le> t"
      by (simp add: startOfDay_def)
    then show ?thesis
      by (simp add: startOfDay_calendarDay)
  qed
  ultimately show "startOfDay now \<le> t"
    by (simp add: startOfDay_calendarDay)
qed

lemma isValidDeadline_iff: "isValidDeadline now t \<longleftrightarrow> Round now (Hour * 24) \<le> t"
  by (auto simp: isValidDeadline_def Compare_def Let_def)

lemma isValidDeadline_before_noon:
  assumes "2 * (now mod (Hour * 24)) < Hour * 24"
  shows "isValidDeadline now t \<longleftrightarrow> calendarDay now \<le> calendarDay t"
  using assms calendarDay_le_iff [of now t]
  by (simp add: isValidDeadline_iff Round_day_cases)

lemma isValidDeadline_from_noon:
  assumes "Hour * 24 \<le> 2 * (now mod (Hour * 24))"
  shows "isValidDeadline now t \<longleftrightarrow> calendarDay now < calendarDay t"
proof -
  have "startOfDay now + Hour * 24 = Hour * 24 * (calendarDay now + 1)"
    by (simp add: startOfDay_calendarDay algebra_simps)
  also have "\<dots> = startOfDay (Hour * 24 * (calendarDay now + 1))"
    by (simp add: startOfDay_def)
  finally have "startOfDay now + Hour * 24 \<le> t
                  \<longleftrightarrow> calendarDay (Hour * 24 * (calendarDay now + 1)) \<le> calendarDay t"
    using calendarDay_le_iff [of "Hour * 24 * (calendarDay now + 1)" t] by simp
  moreover have "calendarDay (Hour * 24 * (calendarDay now + 1)) = calendarDay now + 1"
    using day_positive by (simp add: calendarDay_def)
  ultimately show ?thesis
    using assms by (simp add: isValidDeadline_iff Round_day_cases) linarith
qed

lemma isValidPriority_sint: "isValidPriority p \<longleftrightarrow> 1 \<le> sint p \<and> sint p \<le> 5"
  by (simp add: isValidPriority_def word_sle_eq)

section \<open>Facts about the loops\<close>

lemma deleteLoop_filter:
  "deleteLoop todos s out deleted =
     (out @ filter (\<lambda>t. Summary t \<noteq> s) todos,
      deleted + length (filter (\<lambda>t. Summary t = s) todos))"
  by (induction todos arbitrary: out deleted) auto

lemma patchTodos_map:
  "patchTodos todos now match patch =
     (map (\<lambda>t. if Summary t \<noteq> match then t else patchTodo now patch t) todos,
      length (filter (\<lambda>t. Summary t = match) todos))"
  by (induction todos) (auto split: prod.splits)

lemma patchTodo_empty: "patchTodo now emptyPatch t = t"
  by (simp add: patchTodo_def emptyPatch_def)

lemma patchTodo_fields:
  "Summary (patchTodo now patch t) = (case patchSummary patch of None \<Rightarrow> Summary t | Some v \<Rightarrow> v)"
  "Details (patchTodo now patch t) = (case patchDetails patch of None \<Rightarrow> Details t | Some v \<Rightarrow> v)"
  "Priority (patchTodo now patch t) = (case patchPriority patch of None \<Rightarrow> Priority t | Some v \<Rightarrow> v)"
  "Deadline (patchTodo now patch t) = (case patchDeadline patch of None \<Rightarrow> Deadline t | Some v \<Rightarrow> v)"
  "AddedAt (patchTodo now patch t) = AddedAt t"
  "Done (patchTodo now patch t) = (if patchDone patch = Some True then \<not> Done t else Done t)"
  "DoneAt (patchTodo now patch t) =
     (if patchDone patch = Some True then (if Done t then zeroTime else now) else DoneAt t)"
  by (auto simp: patchTodo_def Let_def split: option.splits)

section \<open>Deadline validation\<close>

text \<open>
  C1. The claim: \<open>isValidDeadline d\<close> is true exactly when the calendar day of \<open>d\<close> is
  today's or a later one, whatever the time of day; a deadline of today's date is always
  valid. The code rounds the clock reading to the nearest multiple of 24 hours, so from
  noon (UTC) on it compares against the next midnight: evaluated at 13:00 on 2024-03-15,
  the deadline parsed from the text \<open>2024-03-15\<close> lies on the same calendar day and is
  rejected, while at 11:00 of that day it is accepted.
\<close>

theorem isValidDeadline_today_rejected_after_noon:
  "ParseDate ''2024-03-15'' = Some (Date 2024 3 15 0 0 0)
   \<and> calendarDay (Date 2024 3 15 0 0 0) = calendarDay (Date 2024 3 15 13 0 0)
   \<and> isValidDeadline (Date 2024 3 15 13 0 0) (Date 2024 3 15 0 0 0) = False
   \<and> isValidDeadline (Date 2024 3 15 11 0 0) (Date 2024 3 15 0 0 0) = True"
  by (simp add: ParseDate_def isDigit_def digitVal_def daysIn_def isValidDeadline_def
      Round_def Compare_def calendarDay_def time_defs)

section \<open>Patch validation\<close>

text \<open>
  C3. When a field the patch supplies violates validation (a priority outside 1..5, a
  deadline on a calendar day before today's, or a summary that is empty once trimmed),
  \<open>setTodoOperation\<close> returns an error and the collection it returns is the collection
  it was given, every record as it was.
\<close>

theorem setTodoOperation_invalid_patch_touches_nothing:
  assumes "(\<exists>p. patchPriority patch = Some p \<and> (sint p < 1 \<or> 5 < sint p))
           \<or> (\<exists>d. patchDeadline patch = Some d \<and> calendarDay d < calendarDay nowCheck)
           \<or> (\<exists>v. patchSummary patch = Some v \<and> TrimSpace v = [])"
  shows "\<exists>err. setTodoOperation todos nowCheck nowPatch match patch = (todos, Inl err)"
  using assms
  by (auto simp: setTodoOperation_def isValidPriority_sint dest: earlier_day_invalid
      split: option.splits)

theorem setTodoOperation_invalid_patch_witness:
  "(\<exists>err. setTodoOperation [buyMilk, callMum] afternoon afternoon ''buy milk''
            (emptyPatch\<lparr>patchPriority := Some 9\<rparr>) = ([buyMilk, callMum], Inl err))
   \<and> (\<exists>err. setTodoOperation [buyMilk, callMum] afternoon afternoon ''buy milk''
            (emptyPatch\<lparr>patchDeadline := Some (Date 2024 3 14 0 0 0)\<rparr>)
          = ([buyMilk, callMum], Inl err))
   \<and> (\<exists>err. setTodoOperation [buyMilk, callMum] afternoon afternoon ''buy milk''
            (emptyPatch\<lparr>patchSummary := Some ''  ''\<rparr>) = ([buyMilk, callMum], Inl err))"
proof -
  have p: "patchPriority (emptyPatch\<lparr>patchPriority := Some 9\<rparr>) = Some 9 \<and> 5 < sint (9 :: int8)"
    by simp
  have d: "patchDeadline (emptyPatch\<lparr>patchDeadline := Some (Date 2024 3 14 0 0 0)\<rparr>)
             = Some (Date 2024 3 14 0 0 0)
           \<and> calendarDay (Date 2024 3 14 0 0 0) < calendarDay afternoon"
    by (simp add: calendarDay_def afternoon_def time_defs)
  have v: "patchSummary (emptyPatch\<lparr>patchSummary := Some ''  ''\<rparr>) = Some ''  ''
           \<and> TrimSpace ''  '' = []"
    by (simp add: TrimSpace_def asciiSpace_def)
  show ?thesis
    using setTodoOperation_invalid_patch_touches_nothing
            [of "emptyPatch\<lparr>patchPriority := Some 9\<rparr>" afternoon
                "[buyMilk, callMum]" afternoon "''buy milk''"]
          setTodoOperation_invalid_patch_touches_nothing
            [of "emptyPatch\<lparr>patchDeadline := Some (Date 2024 3 14 0 0 0)\<rparr>" afternoon
                "[buyMilk, callMum]" afternoon "''buy milk''"]
          setTodoOperation_invalid_patch_touches_nothing
            [of "emptyPatch\<lparr>patchSummary := Some ''  ''\<rparr>" afternoon
                "[buyMilk, callMum]" afternoon "''buy milk''"]
          p d v
    by blast
qed

section \<open>Deletion\<close>

text \<open>
  C6. \<open>deleteTodos\<close> removes exactly the records whose summary is the given string (byte
  for byte, so case matters), keeps the others in their order, and returns how many it
  removed; when none matches, the collection comes back as it was with the count 0, and
  the operation reports that with a message, not an error.
\<close>

theorem deleteTodos_removes_exact_matches:
  "fst (deleteTodos todos s) = filter (\<lambda>t. Summary t \<noteq> s) todos
   \<and> snd (deleteTodos todos s) = length (filter (\<lambda>t. Summary t = s) todos)
   \<and> snd (deleteTodos todos s) = length todos - length (fst (deleteTodos todos s))
   \<and> ((\<forall>t \<in> set todos. Summary t \<noteq> s) \<longrightarrow>
        deleteTodos todos s = (todos, 0)
        \<and> deleteTodoOperation todos s = (todos, NoTodoFound s))"
proof -
  have a: "deleteTodos todos s =
             (filter (\<lambda>t. Summary t \<noteq> s) todos, length (filter (\<lambda>t. Summary t = s) todos))"
    by (simp add: deleteTodos_def deleteLoop_filter)
  have b: "length (filter (\<lambda>t. Summary t = s) todos) =
             length todos - length (filter (\<lambda>t. Summary t \<noteq> s) todos)"
    using sum_length_filter_compl [of "\<lambda>t. Summary t = s" todos] by simp
  have c: "(\<forall>t \<in> set todos. Summary t \<noteq> s) \<Longrightarrow>
             filter (\<lambda>t. Summary t \<noteq> s) todos = todos \<and> filter (\<lambda>t. Summary t = s) todos = []"
    by (induction todos) auto
  show ?thesis
    using a b c by (auto simp: deleteTodoOperation_def)
qed

theorem deleteTodos_witness:
  "fst (deleteTodos [buyMilk, callMum, buyMilk] ''buy milk'') = [callMum]
   \<and> snd (deleteTodos [buyMilk, callMum, buyMilk] ''buy milk'') = 2
   \<and> deleteTodos [buyMilk, callMum] ''nonexistent'' = ([buyMilk, callMum], 0)
   \<and> deleteTodoOperation [buyMilk, callMum] ''nonexistent''
       = ([buyMilk, callMum], NoTodoFound ''nonexistent'')"
  using deleteTodos_removes_exact_matches [of "[buyMilk, callMum, buyMilk]" "''buy milk''"]
        deleteTodos_removes_exact_matches [of "[buyMilk, callMum]" "''nonexistent''"]
  by (simp add: buyMilk_def callMum_def)

section \<open>Patching\<close>

text \<open>
  C7. \<open>patchTodos\<close> updates every record whose summary is exactly \<open>match\<close>, each
  field the patch supplies taking the patch's value, and returns the number of those
  records; so does \<open>setTodoOperation\<close> for a patch that passes validation. A patch with
  no field set leaves the collection as it was and still returns that number.
\<close>

theorem patchTodos_updates_every_match:
  "snd (patchTodos todos now match patch) = length (filter (\<lambda>t. Summary t = match) todos)
   \<and> length (fst (patchTodos todos now match patch)) = length todos
   \<and> (\<forall>i < length todos. Summary (todos ! i) = match \<longrightarrow>
        (let t = todos ! i; t' = fst (patchTodos todos now match patch) ! i
         in Summary t' = (case patchSummary patch of None \<Rightarrow> Summary t | Some v \<Rightarrow> v)
            \<and> Details t' = (case patchDetails patch of None \<Rightarrow> Details t | Some v \<Rightarrow> v)
            \<and> Priority t' = (case patchPriority patch of None \<Rightarrow> Priority t | Some v \<Rightarrow> v)
            \<and> Deadline t' = (case patchDeadline patch of None \<Rightarrow> Deadline t | Some v \<Rightarrow> v)
            \<and> Done t' = (if patchDone patch = Some True then \<not> Done t else Done t)))
   \<and> patchTodos todos now match emptyPatch
       = (todos, length (filter (\<lambda>t. Summary t = match) todos))
   \<and> ((case patchPriority patch of None \<Rightarrow> True | Some p \<Rightarrow> isValidPriority p)
        \<and> (case patchDeadline patch of None \<Rightarrow> True | Some d \<Rightarrow> isValidDeadline nowCheck d)
        \<and> (case patchSummary patch of None \<Rightarrow> True | Some v \<Rightarrow> TrimSpace v \<noteq> [])
       \<longrightarrow> fst (setTodoOperation todos nowCheck now match patch)
             = fst (patchTodos todos now match patch)
           \<and> snd (setTodoOperation todos nowCheck now match patch)
             = (let n = length (filter (\<lambda>t. Summary t = match) todos)
                in if n = 0 then Inr (NoTodoFound match) else Inr (UpdatedTodos n match)))"
proof -
  have count: "snd (patchTodos todos now match patch)
                 = length (filter (\<lambda>t. Summary t = match) todos)"
    by (simp add: patchTodos_map)
  have len: "length (fst (patchTodos todos now match patch)) = length todos"
    by (simp add: patchTodos_map)
  have each: "\<forall>i < length todos. Summary (todos ! i) = match \<longrightarrow>
        (let t = todos ! i; t' = fst (patchTodos todos now match patch) ! i
         in Summary t' = (case patchSummary patch of None \<Rightarrow> Summary t | Some v \<Rightarrow> v)
            \<and> Details t' = (case patchDetails patch of None \<Rightarrow> Details t | Some v \<Rightarrow> v)
            \<and> Priority t' = (case patchPriority patch of None \<Rightarrow> Priority t | Some v \<Rightarrow> v)
            \<and> Deadline t' = (case patchDeadline patch of None \<Rightarrow> Deadline t | Some v \<Rightarrow> v)
            \<and> Done t' = (if patchDone patch = Some True then \<not> Done t else Done t))"
    by (simp add: patchTodos_map patchTodo_fields Let_def)
  have none: "patchTodos todos now match emptyPatch
                = (todos, length (filter (\<lambda>t. Summary t = match) todos))"
    by (simp add: patchTodos_map patchTodo_empty map_idI)
  have op: "(case patchPriority patch of None \<Rightarrow> True | Some p \<Rightarrow> isValidPriority p)
        \<and> (case patchDeadline patch of None \<Rightarrow> True | Some d \<Rightarrow> isValidDeadline nowCheck d)
        \<and> (case patchSummary patch of None \<Rightarrow> True | Some v \<Rightarrow> TrimSpace v \<noteq> [])
       \<longrightarrow> fst (setTodoOperation todos nowCheck now match patch)
             = fst (patchTodos todos now match patch)
           \<and> snd (setTodoOperation todos nowCheck now match patch)
             = (let n = length (filter (\<lambda>t. Summary t = match) todos)
                in if n = 0 then Inr (NoTodoFound match) else Inr (UpdatedTodos n match))"
    by (auto simp: setTodoOperation_def patchTodos_map Let_def split: option.splits)
  from count len each none op show ?thesis
    by blast
qed

theorem patchTodos_updates_every_match_witness:
  "snd (patchTodos [buyMilk, callMum, buyMilk] afternoon ''buy milk''
          (emptyPatch\<lparr>patchPriority := Some 5\<rparr>)) = 2
   \<and> Priority (fst (patchTodos [buyMilk, callMum, buyMilk] afternoon ''buy milk''
          (emptyPatch\<lparr>patchPriority := Some 5\<rparr>)) ! 0) = 5
   \<and> Priority (fst (patchTodos [buyMilk, callMum, buyMilk] afternoon ''buy milk''
          (emptyPatch\<lparr>patchPriority := Some 5\<rparr>)) ! 2) = 5
   \<and> patchTodos [buyMilk, callMum, buyMilk] afternoon ''buy milk'' emptyPatch
       = ([buyMilk, callMum, buyMilk], 2)
   \<and> snd (setTodoOperation [buyMilk, callMum, buyMilk] afternoon afternoon ''buy milk''
            (emptyPatch\<lparr>patchPriority := Some 5\<rparr>)) = Inr (UpdatedTodos 2 ''buy milk'')"
proof -
  let ?todos = "[buyMilk, callMum, buyMilk]"
  let ?patch = "emptyPatch\<lparr>patchPriority := Some 5\<rparr>"
  note th = patchTodos_updates_every_match
              [of ?todos afternoon "''buy milk''" ?patch afternoon]
  have cnt: "length (filter (\<lambda>t. Summary t = ''buy milk'') ?todos) = 2"
    by (simp add: buyMilk_def callMum_def)
  have a: "snd (patchTodos ?todos afternoon ''buy milk'' ?patch) = 2"
    using th [THEN conjunct1] by (simp only: cnt)
  have each: "\<And>i. i < length ?todos \<Longrightarrow> Summary (?todos ! i) = ''buy milk'' \<Longrightarrow>
                Priority (fst (patchTodos ?todos afternoon ''buy milk'' ?patch) ! i) = 5"
    using th [THEN conjunct2, THEN conjunct2, THEN conjunct1]
    by (simp add: Let_def emptyPatch_def)
  have b0: "Priority (fst (patchTodos ?todos afternoon ''buy milk'' ?patch) ! 0) = 5"
    by (rule each) (simp_all add: buyMilk_def)
  have b2: "Priority (fst (patchTodos ?todos afternoon ''buy milk'' ?patch) ! 2) = 5"
    by (rule each) (simp_all add: buyMilk_def)
  have c: "patchTodos ?todos afternoon ''buy milk'' emptyPatch = (?todos, 2)"
    using th [THEN conjunct2, THEN conjunct2, THEN conjunct2, THEN conjunct1]
    by (simp only: cnt)
  have valid: "(case patchPriority ?patch of None \<Rightarrow> True | Some p \<Rightarrow> isValidPriority p)
        \<and> (case patchDeadline ?patch of None \<Rightarrow> True | Some d \<Rightarrow> isValidDeadline afternoon d)
        \<and> (case patchSummary ?patch of None \<Rightarrow> True | Some v \<Rightarrow> TrimSpace v \<noteq> [])"
    by (simp add: emptyPatch_def isValidPriority_sint)
  have "snd (setTodoOperation ?todos afternoon afternoon ''buy milk'' ?patch)
          = (let n = 2 :: nat
             in if n = 0 then Inr (NoTodoFound ''buy milk'')
                else Inr (UpdatedTodos n ''buy milk''))"
    using th [THEN conjunct2, THEN conjunct2, THEN conjunct2, THEN conjunct2, rule_format,
              OF valid, THEN conjunct2]
    by (simp only: cnt)
  then have d: "snd (setTodoOperation ?todos afternoon afternoon ''buy milk'' ?patch)
                  = Inr (UpdatedTodos 2 ''buy milk'')"
    by (simp add: Let_def)
  from a b0 b2 c d show ?thesis
    by blast
qed

text \<open>
  C10. \<open>patchTodos\<close> leaves every record whose summary differs from \<open>match\<close> as it was,
  in all its fields, and keeps the length and the order of the collection: the record at
  each position of the result is the record that was at that position, patched when it
  matched. It inserts, removes and moves nothing.
\<close>

theorem patchTodos_frame:
  "length (fst (patchTodos todos now match patch)) = length todos
   \<and> (\<forall>i < length todos. Summary (todos ! i) \<noteq> match \<longrightarrow>
         fst (patchTodos todos now match patch) ! i = todos ! i)
   \<and> (\<forall>i < length todos. Summary (todos ! i) = match \<longrightarrow>
         fst (patchTodos todos now match patch) ! i = patchTodo now patch (todos ! i))
   \<and> (\<forall>i < length todos.
         AddedAt (fst (patchTodos todos now match patch) ! i) = AddedAt (todos ! i))"
proof -
  let ?res = "fst (patchTodos todos now match patch)"
  have res: "?res = map (\<lambda>t. if Summary t \<noteq> match then t else patchTodo now patch t) todos"
    by (simp add: patchTodos_map)
  have len: "length ?res = length todos"
    by (simp add: res)
  have same: "?res ! i = todos ! i" if "i < length todos" "Summary (todos ! i) \<noteq> match" for i
    using that by (simp add: res)
  have patched: "?res ! i = patchTodo now patch (todos ! i)"
    if "i < length todos" "Summary (todos ! i) = match" for i
    using that by (simp add: res)
  have added: "AddedAt (?res ! i) = AddedAt (todos ! i)" if "i < length todos" for i
  proof (cases "Summary (todos ! i) = match")
    case True
    with that patched [of i] show ?thesis
      by (simp add: patchTodo_fields)
  next
    case False
    with that same [of i] show ?thesis
      by simp
  qed
  from len same patched added show ?thesis
    by blast
qed

theorem patchTodos_frame_witness:
  "length (fst (patchTodos [buyMilk, callMum, buyMilk] afternoon ''buy milk''
                  (emptyPatch\<lparr>patchDone := Some True, patchSummary := Some ''buy oat milk''\<rparr>)))
     = 3
   \<and> fst (patchTodos [buyMilk, callMum, buyMilk] afternoon ''buy milk''
             (emptyPatch\<lparr>patchDone := Some True, patchSummary := Some ''buy oat milk''\<rparr>)) ! 1
     = callMum"
proof -
  have "Summary ([buyMilk, callMum, buyMilk] ! 1) \<noteq> ''buy milk''"
    by (simp add: callMum_def)
  then show ?thesis
    using patchTodos_frame [of "[buyMilk, callMum, buyMilk]" afternoon "''buy milk''"
            "emptyPatch\<lparr>patchDone := Some True, patchSummary := Some ''buy oat milk''\<rparr>"]
    by simp
qed

text \<open>
  C4. For a record that matches, a patch with \<open>done = true\<close> toggles completion. On a
  task that is not done the result is done with \<open>doneAt\<close> the instant of the mutation,
  which is not the empty time (the clock does not read the zero time); the same patch
  applied again, to the record as it now is, gives a task that is not done with an empty
  \<open>doneAt\<close>, which is the state the task had when its \<open>doneAt\<close> was empty to begin with.
  A patch whose \<open>done\<close> is absent or false leaves \<open>done\<close> and \<open>doneAt\<close> as they were.
\<close>

theorem patchTodos_done_toggles:
  assumes "i < length todos" and "Summary (todos ! i) = match" and "now \<noteq> zeroTime"
  shows "(patchDone patch = Some True \<and> \<not> Done (todos ! i) \<longrightarrow>
           (let todos1 = fst (patchTodos todos now match patch);
                t1 = todos1 ! i;
                t2 = fst (patchTodos todos1 now2 (Summary t1) patch) ! i
            in Done t1 \<and> DoneAt t1 = now \<and> DoneAt t1 \<noteq> zeroTime
               \<and> \<not> Done t2 \<and> DoneAt t2 = zeroTime
               \<and> (DoneAt (todos ! i) = zeroTime \<longrightarrow>
                    Done t2 = Done (todos ! i) \<and> DoneAt t2 = DoneAt (todos ! i))))
         \<and> (patchDone patch = Some True \<and> Done (todos ! i) \<longrightarrow>
              (let t1 = fst (patchTodos todos now match patch) ! i
               in \<not> Done t1 \<and> DoneAt t1 = zeroTime))
         \<and> (patchDone patch = None \<or> patchDone patch = Some False \<longrightarrow>
              (let t1 = fst (patchTodos todos now match patch) ! i
               in Done t1 = Done (todos ! i) \<and> DoneAt t1 = DoneAt (todos ! i)))"
  using assms
  by (auto simp: patchTodos_map patchTodo_fields Let_def)

theorem patchTodos_done_toggles_witness:
  "(let todos1 = fst (patchTodos [buyMilk, callMum] afternoon ''buy milk''
                        (emptyPatch\<lparr>patchDone := Some True\<rparr>));
        t1 = todos1 ! 0;
        t2 = fst (patchTodos todos1 (afternoon + Hour) (Summary t1)
                    (emptyPatch\<lparr>patchDone := Some True\<rparr>)) ! 0
    in Done t1 \<and> DoneAt t1 = afternoon \<and> DoneAt t1 \<noteq> zeroTime
       \<and> \<not> Done t2 \<and> DoneAt t2 = zeroTime
       \<and> Done t2 = Done buyMilk \<and> DoneAt t2 = DoneAt buyMilk)
   \<and> (let t1 = fst (patchTodos [buyMilk, callMum] afternoon ''buy milk''
                      (emptyPatch\<lparr>patchDone := Some False\<rparr>)) ! 0
      in Done t1 = Done buyMilk \<and> DoneAt t1 = DoneAt buyMilk)"
proof -
  have i: "0 < length [buyMilk, callMum]"
    and m: "Summary ([buyMilk, callMum] ! 0) = ''buy milk''"
    and n: "afternoon \<noteq> zeroTime"
    and d: "\<not> Done ([buyMilk, callMum] ! 0)" "DoneAt ([buyMilk, callMum] ! 0) = zeroTime"
    by (simp_all add: buyMilk_def afternoon_def zeroTime_def time_defs)
  show ?thesis
    using patchTodos_done_toggles [OF i m n, of "emptyPatch\<lparr>patchDone := Some True\<rparr>"
            "afternoon + Hour"]
          patchTodos_done_toggles [OF i m n, of "emptyPatch\<lparr>patchDone := Some False\<rparr>"]
          d
    by (simp add: Let_def)
qed

section \<open>The completion invariant\<close>

text \<open>
  C8. In a collection whose tasks all satisfy the completion invariant (done exactly when
  \<open>doneAt\<close> is set), every successful mutation keeps it: the collection after a
  successful \<open>addTodoOperation\<close>, the task a successful \<open>createTodo\<close> returns, and the
  collection after \<open>patchTodos\<close> and after a successful \<open>setTodoOperation\<close>. The clock
  reading the patch stores is not the zero time.
\<close>

theorem completion_invariant_preserved:
  assumes "\<forall>t \<in> set todos. completionInv t" and "nowPatch \<noteq> zeroTime"
  shows "(\<forall>todos' msg.
            addTodoOperation todos nowDefault nowCheck nowAdded summary details deadlineStr
              priorityStr = (todos', Inr msg)
            \<longrightarrow> (\<forall>t \<in> set todos'. completionInv t))
         \<and> (\<forall>t. createTodo nowCheck nowAdded summary details deadlineStr priorityStr = Inr t
                \<longrightarrow> completionInv t)
         \<and> (\<forall>t \<in> set (fst (patchTodos todos nowPatch match patch)). completionInv t)
         \<and> (\<forall>todos' msg.
              setTodoOperation todos nowCheck nowPatch match patch = (todos', Inr msg)
              \<longrightarrow> (\<forall>t \<in> set todos'. completionInv t))"
proof -
  have one: "completionInv (patchTodo nowPatch patch t)" if "completionInv t" for t
    using that assms(2) by (auto simp: completionInv_def patchTodo_fields)
  have patch: "\<forall>t \<in> set (fst (patchTodos todos nowPatch match patch)). completionInv t"
    using assms(1) one by (auto simp: patchTodos_map)
  have add: "\<forall>t \<in> set todos'. completionInv t"
    if "addTodoOperation todos nowDefault nowCheck nowAdded summary details deadlineStr
          priorityStr = (todos', Inr msg)" for todos' msg
    using that assms(1)
    by (auto simp: addTodoOperation_def completionInv_def Let_def
        split: if_splits sum.splits option.splits)
  have create: "completionInv t"
    if "createTodo nowCheck nowAdded summary details deadlineStr priorityStr = Inr t" for t
    using that
    by (auto simp: createTodo_def completionInv_def Let_def
        split: if_splits sum.splits option.splits)
  have setop: "\<forall>t \<in> set todos'. completionInv t"
    if "setTodoOperation todos nowCheck nowPatch match patch = (todos', Inr msg)"
    for todos' msg
  proof -
    from that have "todos' = fst (patchTodos todos nowPatch match patch)"
      by (auto simp: setTodoOperation_def Let_def split: if_splits prod.splits)
    with patch show ?thesis by simp
  qed
  from add create patch setop show ?thesis
    by blast
qed

theorem completion_invariant_witness:
  "completionInv (fst (patchTodos [buyMilk, callMum] afternoon ''buy milk''
                         (emptyPatch\<lparr>patchDone := Some True\<rparr>)) ! 0)
   \<and> completionInv (fst (patchTodos [buyMilk, callMum] afternoon ''Buy milk''
                         (emptyPatch\<lparr>patchDone := Some True\<rparr>)) ! 1)
   \<and> (\<exists>todos'. addTodoOperation [buyMilk, callMum] morning morning morning
                   '' walk dog '' ''park'' ''2024-03-16'' ''3'' = (todos', Inr TodoAdded)
               \<and> length todos' = 3 \<and> list_all completionInv todos')"
proof -
  let ?todos = "[buyMilk, callMum]"
  let ?patch = "emptyPatch\<lparr>patchDone := Some True\<rparr>"
  have inv0: "\<forall>t \<in> set ?todos. completionInv t"
    by (simp add: completionInv_def buyMilk_def callMum_def zeroTime_def time_defs)
  have n: "afternoon \<noteq> zeroTime"
    by (simp add: afternoon_def zeroTime_def time_defs)
  have len: "length (fst (patchTodos ?todos afternoon m ?patch)) = 2" for m
    by (simp add: patchTodos_map)
  have a: "completionInv (fst (patchTodos ?todos afternoon ''buy milk'' ?patch) ! 0)"
    using completion_invariant_preserved
            [OF inv0 n, where match = "''buy milk''" and patch = ?patch,
             THEN conjunct2, THEN conjunct2, THEN conjunct1]
          len [of "''buy milk''"]
    by (metis nth_mem zero_less_numeral)
  have b: "completionInv (fst (patchTodos ?todos afternoon ''Buy milk'' ?patch) ! 1)"
    using completion_invariant_preserved
            [OF inv0 n, where match = "''Buy milk''" and patch = ?patch,
             THEN conjunct2, THEN conjunct2, THEN conjunct1]
          len [of "''Buy milk''"]
    by (metis nth_mem one_less_numeral_iff semiring_norm(76))
  have trim: "TrimSpace '' walk dog '' = ''walk dog''"
    by (simp add: TrimSpace_def asciiSpace_def isSpace2_def isSpace3_def)
  have dl: "stringToDeadline ''2024-03-16'' = Inr (Some (Date 2024 3 16 0 0 0))"
    by (simp add: stringToDeadline_def ParseDate_def isDigit_def digitVal_def daysIn_def)
  have ok: "isValidDeadline morning (Date 2024 3 16 0 0 0)"
    by (simp add: isValidDeadline_def Round_def Compare_def morning_def time_defs)
  have pr: "stringToPriority ''3'' = Inr (Some 3)"
    by (simp add: stringToPriority_def ParseUint_def isDigit_def digitVal_def maxUint64_def)
  have add: "addTodoOperation ?todos morning morning morning
               '' walk dog '' ''park'' ''2024-03-16'' ''3''
             = (?todos @ [\<lparr>Priority = 3, Deadline = Date 2024 3 16 0 0 0, AddedAt = morning,
                            DoneAt = zeroTime, Done = False, Summary = ''walk dog'',
                            Details = ''park''\<rparr>], Inr TodoAdded)"
    by (simp add: addTodoOperation_def trim dl ok pr isValidPriority_sint)
  have c: "list_all completionInv
             (?todos @ [\<lparr>Priority = 3, Deadline = Date 2024 3 16 0 0 0, AddedAt = morning,
                           DoneAt = zeroTime, Done = False, Summary = ''walk dog'',
                           Details = ''park''\<rparr>])"
    using completion_invariant_preserved
            [OF inv0 n, where nowDefault = morning and nowCheck = morning
               and nowAdded = morning and summary = "'' walk dog ''" and details = "''park''"
               and deadlineStr = "''2024-03-16''" and priorityStr = "''3''",
             THEN conjunct1, rule_format, OF add]
    unfolding list_all_iff by blast
  from a b add c show ?thesis
    by simp
qed

section \<open>Parsing a priority\<close>

text \<open>
  The loop of \<open>ParseUint\<close> against the value of the digits: on a text of digits it
  returns their value when that is at most \<open>maxVal\<close>, and a range error otherwise.
\<close>

lemma cutoff_value: "Suc (maxUint64 div 10) = 1844674407370955162"
  by (simp add: maxUint64_def)

lemma isDigit_digitVal: "isDigit c \<Longrightarrow> digitVal c \<le> 9"
  unfolding isDigit_def digitVal_def by linarith

lemma horner_ge: "n \<le> foldl (\<lambda>a c. a * 10 + digitVal c) n ds"
proof (induction ds arbitrary: n)
  case Nil
  show ?case by simp
next
  case (Cons c cs)
  have "n \<le> n * 10 + digitVal c" by simp
  also have "\<dots> \<le> foldl (\<lambda>a c. a * 10 + digitVal c) (n * 10 + digitVal c) cs"
    by (rule Cons.IH)
  finally show ?case by simp
qed

lemma parseUintLoop_digits:
  assumes "list_all isDigit ds" and "maxVal < 2 ^ 64" and "n \<le> maxVal"
  shows "parseUintLoop maxVal n ds =
           (if foldl (\<lambda>a c. a * 10 + digitVal c) n ds \<le> maxVal
            then Inr (foldl (\<lambda>a c. a * 10 + digitVal c) n ds) else Inl ErrRange)"
  using assms(1,3)
proof (induction ds arbitrary: n)
  case Nil
  then show ?case by simp
next
  case (Cons c cs)
  let ?f = "\<lambda>a c. a * 10 + digitVal c"
  let ?m = "n * 10 + digitVal c"
  have p64: "(2::nat) ^ 64 = 18446744073709551616"
    by simp
  have dc: "isDigit c" and dcs: "list_all isDigit cs"
    using Cons.prems by simp_all
  have d9: "digitVal c \<le> 9"
    using dc by (rule isDigit_digitVal)
  have ge: "?m \<le> foldl ?f ?m cs"
    by (rule horner_ge)
  show ?case
  proof (cases "1844674407370955162 \<le> n")
    case True
    then have "2 ^ 64 \<le> ?m"
      unfolding p64 by linarith
    with ge assms(2) have "maxVal < foldl ?f ?m cs"
      by linarith
    with dc True show ?thesis
      by (simp add: cutoff_value)
  next
    case small: False
    then have n10: "(n * 10) mod 2 ^ 64 = n * 10"
      unfolding p64 by simp
    show ?thesis
    proof (cases "?m < 2 ^ 64")
      case True
      then have n1: "?m mod 2 ^ 64 = ?m"
        by simp
      show ?thesis
      proof (cases "maxVal < ?m")
        case True
        with ge have "maxVal < foldl ?f ?m cs"
          by linarith
        with dc small True show ?thesis
          by (simp add: cutoff_value n10 [unfolded p64] n1 [unfolded p64] Let_def)
      next
        case False
        then have "?m \<le> maxVal"
          by simp
        from Cons.IH [OF dcs this] dc small False show ?thesis
          by (simp add: cutoff_value n10 [unfolded p64] n1 [unfolded p64] Let_def)
      qed
    next
      case False
      then have big: "2 ^ 64 \<le> ?m"
        by simp
      have "?m < 2 * 2 ^ 64"
        using small d9 unfolding p64 by linarith
      with big have "?m mod 2 ^ 64 = ?m - 2 ^ 64"
        by (metis le_add_diff_inverse mod_add_self1 mod_less mult_2 nat_add_left_cancel_less)
      with d9 big have wrap: "?m mod 18446744073709551616 < n * 10"
        unfolding p64 by linarith
      from big ge assms(2) have "maxVal < foldl ?f ?m cs"
        by linarith
      with dc small wrap show ?thesis
        by (simp add: cutoff_value n10 [unfolded p64] Let_def)
    qed
  qed
qed

lemma parseUintLoop_not_digits:
  "\<not> list_all isDigit ds \<Longrightarrow> \<exists>e. parseUintLoop maxVal n ds = Inl e"
  by (induction ds arbitrary: n) (auto simp: Let_def)

lemma ParseUint8_digits:
  assumes "isDigits ds"
  shows "ParseUint ds 8 =
           (if digitsValue ds \<le> 255 then Inr (digitsValue ds) else Inl ErrRange)"
proof -
  from assms have ne: "ds \<noteq> []" and dg: "list_all isDigit ds"
    by (simp_all add: isDigits_def)
  have "parseUintLoop 255 0 ds =
          (if foldl (\<lambda>a c. a * 10 + digitVal c) 0 ds \<le> 255
           then Inr (foldl (\<lambda>a c. a * 10 + digitVal c) 0 ds) else Inl ErrRange)"
    by (rule parseUintLoop_digits [OF dg]) simp_all
  with ne show ?thesis
    by (simp add: ParseUint_def digitsValue_def)
qed

lemma ParseUint8_not_digits:
  assumes "\<not> isDigits ds"
  shows "\<exists>e. ParseUint ds 8 = Inl e"
proof (cases "ds = []")
  case True
  then show ?thesis by (simp add: ParseUint_def)
next
  case False
  with assms have "\<not> list_all isDigit ds"
    by (simp add: isDigits_def)
  from parseUintLoop_not_digits [OF this] False show ?thesis
    by (simp add: ParseUint_def)
qed

lemma ParseInt8_int_text:
  assumes "isIntText s"
  shows "ParseInt s 8 =
           (if - 128 \<le> intValue s \<and> intValue s \<le> 127 then Inr (intValue s)
            else Inl ErrRange)"
proof (cases s)
  case Nil
  with assms show ?thesis by simp
next
  case (Cons c cs)
  show ?thesis
  proof (cases "c = CHR ''+'' \<or> c = CHR ''-''")
    case True
    with assms Cons have "isDigits cs"
      by simp
    from ParseUint8_digits [OF this] True Cons show ?thesis
      by (auto simp: Let_def)
  next
    case False
    with assms Cons have "isDigits (c # cs)"
      by simp
    from ParseUint8_digits [OF this] False Cons show ?thesis
      by (auto simp: Let_def)
  qed
qed

lemma ParseInt8_not_int_text:
  assumes "\<not> isIntText s"
  shows "\<exists>e. ParseInt s 8 = Inl e"
proof (cases s)
  case Nil
  then show ?thesis by simp
next
  case (Cons c cs)
  show ?thesis
  proof (cases "c = CHR ''+'' \<or> c = CHR ''-''")
    case True
    with assms Cons have "\<not> isDigits cs"
      by simp
    from ParseUint8_not_digits [OF this] obtain e where "ParseUint cs 8 = Inl e"
      by blast
    with True Cons show ?thesis
      by (cases e) (auto simp: Let_def)
  next
    case False
    with assms Cons have "\<not> isDigits (c # cs)"
      by simp
    from ParseUint8_not_digits [OF this] obtain e where "ParseUint (c # cs) 8 = Inl e"
      by blast
    with False Cons show ?thesis
      by (cases e) (auto simp: Let_def)
  qed
qed

lemma sint_int8: "- 128 \<le> v \<Longrightarrow> v \<le> 127 \<Longrightarrow> sint (word_of_int v :: int8) = v"
  by (simp add: sint_sbintrunc' signed_take_bit_int_eq_self)

text \<open>
  The text \<open>200\<close> reads as the integer 200, and \<open>stringToPriority\<close> returns the
  format error for it: the value does not fit the 8-bit type of a priority.
\<close>

theorem stringToPriority_counterexample:
  "isIntText ''200'' \<and> intValue ''200'' = 200
   \<and> stringToPriority ''200'' = Inl InvalidPriorityFormat"
  by (simp add: stringToPriority_def ParseUint_def isDigits_def isDigit_def digitVal_def
      digitsValue_def maxUint64_def)

text \<open>
  C9, as the code has it. The empty text gives no value and no error. A non-empty text
  that reads as an integer between -128 and 127 gives that integer with no error, with no
  restriction to 1..5 at this stage. A text that reads as an integer outside -128..127, and
  a non-empty text that does not read as an integer, give the format error.
\<close>

theorem stringToPriority_parses_int8:
  "stringToPriority [] = Inr None
   \<and> (s \<noteq> [] \<and> isIntText s \<and> - 128 \<le> intValue s \<and> intValue s \<le> 127 \<longrightarrow>
        (\<exists>p. stringToPriority s = Inr (Some p) \<and> sint p = intValue s))
   \<and> (s \<noteq> [] \<and> isIntText s \<and> (intValue s < - 128 \<or> 127 < intValue s) \<longrightarrow>
        stringToPriority s = Inl InvalidPriorityFormat)
   \<and> (s \<noteq> [] \<and> \<not> isIntText s \<longrightarrow> stringToPriority s = Inl InvalidPriorityFormat)"
proof -
  have none: "stringToPriority [] = Inr None"
    by (simp add: stringToPriority_def)
  have ok: "\<exists>p. stringToPriority s = Inr (Some p) \<and> sint p = intValue s"
    if "s \<noteq> []" "isIntText s" "- 128 \<le> intValue s" "intValue s \<le> 127"
    using that ParseInt8_int_text [of s] by (simp add: stringToPriority_def sint_int8)
  have range: "stringToPriority s = Inl InvalidPriorityFormat"
    if "s \<noteq> []" "isIntText s" "intValue s < - 128 \<or> 127 < intValue s"
    using that ParseInt8_int_text [of s] by (auto simp: stringToPriority_def)
  have nonint: "stringToPriority s = Inl InvalidPriorityFormat"
    if "s \<noteq> []" "\<not> isIntText s"
    using that ParseInt8_not_int_text [of s] by (auto simp: stringToPriority_def)
  from none ok range nonint show ?thesis
    by blast
qed

theorem stringToPriority_witness:
  "(\<exists>p. stringToPriority ''-7'' = Inr (Some p) \<and> sint p = - 7)
   \<and> (\<exists>p. stringToPriority ''9'' = Inr (Some p) \<and> sint p = 9)
   \<and> stringToPriority ''-129'' = Inl InvalidPriorityFormat
   \<and> stringToPriority ''3x'' = Inl InvalidPriorityFormat"
proof -
  have a: "''-7'' \<noteq> [] \<and> isIntText ''-7'' \<and> - 128 \<le> intValue ''-7'' \<and> intValue ''-7'' \<le> 127"
    and a': "intValue ''-7'' = - 7"
    by (simp_all add: isDigits_def isDigit_def digitVal_def digitsValue_def)
  have b: "''9'' \<noteq> [] \<and> isIntText ''9'' \<and> - 128 \<le> intValue ''9'' \<and> intValue ''9'' \<le> 127"
    and b': "intValue ''9'' = 9"
    by (simp_all add: isDigits_def isDigit_def digitVal_def digitsValue_def)
  have c: "''-129'' \<noteq> [] \<and> isIntText ''-129''
           \<and> (intValue ''-129'' < - 128 \<or> 127 < intValue ''-129'')"
    by (simp add: isDigits_def isDigit_def digitVal_def digitsValue_def)
  have d: "''3x'' \<noteq> [] \<and> \<not> isIntText ''3x''"
    by (simp add: isDigits_def isDigit_def)
  from stringToPriority_parses_int8 [of "''-7''"] a a'
  have 1: "\<exists>p. stringToPriority ''-7'' = Inr (Some p) \<and> sint p = - 7"
    by simp
  from stringToPriority_parses_int8 [of "''9''"] b b'
  have 2: "\<exists>p. stringToPriority ''9'' = Inr (Some p) \<and> sint p = 9"
    by simp
  from stringToPriority_parses_int8 [of "''-129''"] c
  have 3: "stringToPriority ''-129'' = Inl InvalidPriorityFormat"
    by blast
  from stringToPriority_parses_int8 [of "''3x''"] d
  have 4: "stringToPriority ''3x'' = Inl InvalidPriorityFormat"
    by blast
  from 1 2 3 4 show ?thesis
    by blast
qed

section \<open>The order of display\<close>

text \<open>
  Sorting by insertion gives a sorted permutation for every comparison that is asymmetric
  and whose negation is transitive, so it meets the contract of the library's sort; the
  comparison of \<open>sortTodos\<close> is a transitive ordering.
\<close>

lemma mset_insertSorted: "mset (insertSorted lessFn x ys) = add_mset x (mset ys)"
  by (induction ys) auto

lemma set_insertSorted: "set (insertSorted lessFn x ys) = insert x (set ys)"
  by (induction ys) auto

lemma sorted_insertSorted:
  assumes asym: "\<And>a b. lessFn a b \<Longrightarrow> \<not> lessFn b a"
    and negtrans: "\<And>a b c. \<not> lessFn a b \<Longrightarrow> \<not> lessFn b c \<Longrightarrow> \<not> lessFn a c"
    and "sorted_wrt (\<lambda>a b. \<not> lessFn a b) ys"
  shows "sorted_wrt (\<lambda>a b. \<not> lessFn a b) (insertSorted lessFn x ys)"
  using assms(3)
proof (induction ys)
  case Nil
  show ?case by simp
next
  case (Cons y ys)
  show ?case
  proof (cases "lessFn x y")
    case True
    then have "\<not> lessFn y x"
      by (rule asym)
    with Cons True show ?thesis
      by (auto simp: set_insertSorted)
  next
    case False
    have "\<not> lessFn x z" if "z \<in> set ys" for z
    proof -
      from Cons.prems that have "\<not> lessFn y z"
        by simp
      with False show ?thesis
        by (rule negtrans)
    qed
    with Cons.prems False show ?thesis
      by simp
  qed
qed

lemma foldl_insertSorted:
  assumes asym: "\<And>a b. lessFn a b \<Longrightarrow> \<not> lessFn b a"
    and negtrans: "\<And>a b c. \<not> lessFn a b \<Longrightarrow> \<not> lessFn b c \<Longrightarrow> \<not> lessFn a c"
    and "sorted_wrt (\<lambda>a b. \<not> lessFn a b) acc"
  shows "sorted_wrt (\<lambda>a b. \<not> lessFn a b) (foldl (\<lambda>done x. insertSorted lessFn x done) acc xs)
         \<and> mset (foldl (\<lambda>done x. insertSorted lessFn x done) acc xs) = mset acc + mset xs"
  using assms(3)
proof (induction xs arbitrary: acc)
  case Nil
  then show ?case by simp
next
  case (Cons x xs)
  have "sorted_wrt (\<lambda>a b. \<not> lessFn a b) (insertSorted lessFn x acc)"
    using asym negtrans Cons.prems by (rule sorted_insertSorted)
  from Cons.IH [OF this] show ?case
    by (simp add: mset_insertSorted)
qed

lemma mset_insertionSort: "mset (insertionSort lessFn xs) = mset xs"
proof -
  have "mset (foldl (\<lambda>done x. insertSorted lessFn x done) acc xs) = mset acc + mset xs"
    for acc
    by (induction xs arbitrary: acc) (simp_all add: mset_insertSorted)
  from this [of "[]"] show ?thesis
    by (simp add: insertionSort_def)
qed

lemma insertionSort_sorted:
  assumes asym: "\<And>a b. lessFn a b \<Longrightarrow> \<not> lessFn b a"
    and negtrans: "\<And>a b c. \<not> lessFn a b \<Longrightarrow> \<not> lessFn b c \<Longrightarrow> \<not> lessFn a c"
  shows "sorted_wrt (\<lambda>a b. \<not> lessFn b a) (insertionSort lessFn xs)"
proof -
  have "sorted_wrt (\<lambda>a b. \<not> lessFn a b)
          (foldl (\<lambda>done x. insertSorted lessFn x done) [] xs)
        \<and> mset (foldl (\<lambda>done x. insertSorted lessFn x done) [] xs) = mset [] + mset xs"
  proof (rule foldl_insertSorted)
    show "\<And>a b. lessFn a b \<Longrightarrow> \<not> lessFn b a"
      by (rule asym)
    show "\<And>a b c. \<not> lessFn a b \<Longrightarrow> \<not> lessFn b c \<Longrightarrow> \<not> lessFn a c"
      by (rule negtrans)
    show "sorted_wrt (\<lambda>a b. \<not> lessFn a b) []"
      by simp
  qed
  then show ?thesis
    by (simp add: insertionSort_def sorted_wrt_rev)
qed

lemma transitiveOrdering_asym:
  assumes "transitiveOrdering lessFn" and "lessFn a b"
  shows "\<not> lessFn b a"
proof
  assume "lessFn b a"
  with assms have "lessFn a a"
    unfolding transitiveOrdering_def by blast
  with assms(1) show False
    unfolding transitiveOrdering_def by blast
qed

lemma transitiveOrdering_negtrans:
  assumes "transitiveOrdering lessFn" and "\<not> lessFn a b" and "\<not> lessFn b c"
  shows "\<not> lessFn a c"
  using assms unfolding transitiveOrdering_def by blast

lemma insertionSort_contract: "sortContract insertionSort"
  unfolding sortContract_def
proof (intro allI conjI impI)
  fix lessFn :: "'a \<Rightarrow> 'a \<Rightarrow> bool" and xs
  show "mset (insertionSort lessFn xs) = mset xs"
    by (rule mset_insertionSort)
  assume ord: "transitiveOrdering lessFn"
  show "sorted_wrt (\<lambda>a b. \<not> lessFn b a) (insertionSort lessFn xs)"
  proof (rule insertionSort_sorted)
    show "\<And>a b. lessFn a b \<Longrightarrow> \<not> lessFn b a"
      using ord by (rule transitiveOrdering_asym)
    show "\<And>a b c. \<not> lessFn a b \<Longrightarrow> \<not> lessFn b c \<Longrightarrow> \<not> lessFn a c"
      using ord by (rule transitiveOrdering_negtrans)
  qed
qed

lemma SortSlice_contract:
  assumes "sortContract pdqsort"
  shows "sortContract (SortSlice pdqsort)"
  using assms insertionSort_contract [where ?'a = 'a]
  unfolding sortContract_def SortSlice_def by simp

lemma sortTodosLess_asym: "sortTodosLess a b \<Longrightarrow> \<not> sortTodosLess b a"
  by (auto simp: sortTodosLess_def Before_def Equal_def split: if_splits)

lemma sortTodosLess_negtrans:
  "\<not> sortTodosLess a b \<Longrightarrow> \<not> sortTodosLess b c \<Longrightarrow> \<not> sortTodosLess a c"
  unfolding sortTodosLess_def Before_def Equal_def word_sless_alt
    word_eq_iff_signed [where ?'a = int]
  by (auto split: if_splits)

lemma sortTodosLess_trans:
  assumes "sortTodosLess a b" and "sortTodosLess b c"
  shows "sortTodosLess a c"
proof (rule ccontr)
  assume "\<not> sortTodosLess a c"
  moreover from assms(2) have "\<not> sortTodosLess c b"
    by (rule sortTodosLess_asym)
  ultimately have "\<not> sortTodosLess a b"
    by (rule sortTodosLess_negtrans)
  with assms(1) show False
    by simp
qed

lemma sortTodosLess_ordering: "transitiveOrdering sortTodosLess"
  unfolding transitiveOrdering_def
  using sortTodosLess_asym sortTodosLess_trans sortTodosLess_negtrans by blast

lemma SortSlice_todos:
  assumes "sortContract pdqsort"
  shows "mset (SortSlice pdqsort sortTodosLess xs) = mset xs"
    and "sorted_wrt (\<lambda>a b. \<not> sortTodosLess b a) (SortSlice pdqsort sortTodosLess xs)"
  using SortSlice_contract [OF assms] sortTodosLess_ordering
  unfolding sortContract_def by blast+

lemma sorted_less_index:
  assumes "sorted_wrt (\<lambda>a b. \<not> sortTodosLess b a) ys"
    and "i < length ys" and "j < length ys"
    and "sortTodosLess (ys ! i) (ys ! j)"
  shows "i < j"
proof (rule ccontr)
  assume "\<not> i < j"
  then consider "i = j" | "j < i"
    by linarith
  then show False
  proof cases
    case 1
    with assms(4) sortTodosLess_asym show False
      by blast
  next
    case 2
    with assms(1,2,4) show False
      by (simp add: sorted_wrt_iff_nth_less)
  qed
qed

text \<open>What \<open>sortTodos\<close> does to the store.\<close>

lemma sortTodos_store:
  assumes "todos < length st"
  shows "sortTodos pdqsort st todos
           = (st @ [SortSlice pdqsort sortTodosLess (st ! todos)], length st)"
  using assms
  by (simp add: sortTodos_def makeTodos_def copyTodos_def sortSliceTodos_def nth_append)

text \<open>
  C5. \<open>sortTodos\<close> is pure: the slice it returns is a new one, and every slice that was
  in the store, the argument among them, holds after the call what it held before. The
  new slice holds the tasks of the argument, and whenever one of its tasks is before
  another by the rules, it stands at a smaller index: a task not done before a done one;
  of two done tasks the one with the earlier \<open>doneAt\<close>; of two tasks not done the one
  with the earlier deadline, on equal deadlines the one with the higher priority, and on
  equal priorities too the one added earlier. For A and B not done with one deadline and
  priorities 3 and 5, and C and D done with C's \<open>doneAt\<close> the earlier, the order of
  \<open>[A, B, C, D]\<close> is \<open>[B, A, C, D]\<close>. The library's sort of slices longer than twelve
  elements enters by its contract.
\<close>

theorem sortTodos_display_order:
  assumes "sortContract pdqsort" and "todos < length st"
  shows "(let st' = fst (sortTodos pdqsort st todos);
              sorted = snd (sortTodos pdqsort st todos)
          in sorted \<noteq> todos \<and> sorted \<notin> {0..<length st} \<and> sorted < length st'
             \<and> st' ! todos = st ! todos
             \<and> take (length st) st' = st
             \<and> mset (st' ! sorted) = mset (st ! todos)
             \<and> (\<forall>i j. i < length (st' ! sorted) \<and> j < length (st' ! sorted) \<longrightarrow>
                   (let a = st' ! sorted ! i; b = st' ! sorted ! j
                    in (\<not> Done a \<and> Done b \<longrightarrow> i < j)
                       \<and> (Done a \<and> Done b \<and> DoneAt a < DoneAt b \<longrightarrow> i < j)
                       \<and> (\<not> Done a \<and> \<not> Done b \<and> Deadline a < Deadline b \<longrightarrow> i < j)
                       \<and> (\<not> Done a \<and> \<not> Done b \<and> Deadline a = Deadline b
                            \<and> sint (Priority b) < sint (Priority a) \<longrightarrow> i < j)
                       \<and> (\<not> Done a \<and> \<not> Done b \<and> Deadline a = Deadline b
                            \<and> Priority a = Priority b \<and> AddedAt a < AddedAt b \<longrightarrow> i < j)))
             \<and> (st ! todos = [A, B, C, D]
                  \<and> \<not> Done A \<and> \<not> Done B \<and> Deadline A = Deadline B
                  \<and> Priority A = 3 \<and> Priority B = 5
                  \<and> Done C \<and> Done D \<and> DoneAt C < DoneAt D
                 \<longrightarrow> st' ! sorted = [B, A, C, D]))"
proof -
  let ?ys = "SortSlice pdqsort sortTodosLess (st ! todos)"
  have res: "sortTodos pdqsort st todos = (st @ [?ys], length st)"
    using assms(2) by (rule sortTodos_store)
  have new: "length st \<noteq> todos \<and> length st \<notin> {0..<length st}
             \<and> length st < length (st @ [?ys])"
    using assms(2) by simp
  have kept: "(st @ [?ys]) ! todos = st ! todos \<and> take (length st) (st @ [?ys]) = st"
    using assms(2) by (simp add: nth_append)
  have at: "(st @ [?ys]) ! length st = ?ys"
    by simp
  have perm: "mset ?ys = mset (st ! todos)"
    using assms(1) by (rule SortSlice_todos(1))
  have sorted: "sorted_wrt (\<lambda>a b. \<not> sortTodosLess b a) ?ys"
    using assms(1) by (rule SortSlice_todos(2))
  have order: "i < j"
    if "i < length ?ys" "j < length ?ys"
      and "(\<not> Done (?ys ! i) \<and> Done (?ys ! j))
           \<or> (Done (?ys ! i) \<and> Done (?ys ! j) \<and> DoneAt (?ys ! i) < DoneAt (?ys ! j))
           \<or> (\<not> Done (?ys ! i) \<and> \<not> Done (?ys ! j) \<and> Deadline (?ys ! i) < Deadline (?ys ! j))
           \<or> (\<not> Done (?ys ! i) \<and> \<not> Done (?ys ! j) \<and> Deadline (?ys ! i) = Deadline (?ys ! j)
               \<and> sint (Priority (?ys ! j)) < sint (Priority (?ys ! i)))
           \<or> (\<not> Done (?ys ! i) \<and> \<not> Done (?ys ! j) \<and> Deadline (?ys ! i) = Deadline (?ys ! j)
               \<and> Priority (?ys ! i) = Priority (?ys ! j)
               \<and> AddedAt (?ys ! i) < AddedAt (?ys ! j))"
    for i j
  proof -
    from that(3) have "sortTodosLess (?ys ! i) (?ys ! j)"
      by (auto simp: sortTodosLess_def Before_def Equal_def word_sless_alt)
    with sorted that(1,2) show ?thesis
      by (rule sorted_less_index)
  qed
  have example: "?ys = [B, A, C, D]"
    if "st ! todos = [A, B, C, D]" "\<not> Done A" "\<not> Done B" "Deadline A = Deadline B"
      "Priority A = 3" "Priority B = 5" "Done C" "Done D" "DoneAt C < DoneAt D"
    using that
    by (simp add: SortSlice_def insertionSort_def sortTodosLess_def Before_def Equal_def
        word_sless_alt)
  from new kept perm order example show ?thesis
    unfolding res fst_conv snd_conv Let_def at by blast
qed

theorem sortTodos_display_order_witness:
  "snd (sortTodos insertionSort [[taskA, taskB, taskC, taskD], replicate 13 taskA] 0) = 2
   \<and> fst (sortTodos insertionSort [[taskA, taskB, taskC, taskD], replicate 13 taskA] 0) ! 0
       = [taskA, taskB, taskC, taskD]
   \<and> fst (sortTodos insertionSort [[taskA, taskB, taskC, taskD], replicate 13 taskA] 0) ! 2
       = [taskB, taskA, taskC, taskD]
   \<and> mset (fst (sortTodos insertionSort [[taskA, taskB, taskC, taskD], replicate 13 taskA] 1)
             ! 2)
       = mset (replicate 13 taskA)"
proof -
  let ?st = "[[taskA, taskB, taskC, taskD], replicate 13 taskA]"
  have ex: "?st ! 0 = [taskA, taskB, taskC, taskD]
        \<and> \<not> Done taskA \<and> \<not> Done taskB \<and> Deadline taskA = Deadline taskB
        \<and> Priority taskA = 3 \<and> Priority taskB = 5
        \<and> Done taskC \<and> Done taskD \<and> DoneAt taskC < DoneAt taskD"
    by (simp add: taskA_def taskB_def taskC_def taskD_def time_defs)
  have s0: "snd (sortTodos insertionSort ?st 0) = 2"
    and s1: "snd (sortTodos insertionSort ?st 1) = 2"
    by (simp_all add: sortTodos_store)
  have i0: "(0::nat) < length ?st" and i1: "(1::nat) < length ?st"
    by simp_all
  note th0 = sortTodos_display_order [OF insertionSort_contract i0,
                of taskA taskB taskC taskD, unfolded Let_def s0]
  note th1 = sortTodos_display_order [OF insertionSort_contract i1, unfolded Let_def s1]
  have a: "fst (sortTodos insertionSort ?st 0) ! 0 = [taskA, taskB, taskC, taskD]"
    using th0 by simp
  have b: "fst (sortTodos insertionSort ?st 0) ! 2 = [taskB, taskA, taskC, taskD]"
    using th0 ex by blast
  have c: "mset (fst (sortTodos insertionSort ?st 1) ! 2) = mset (replicate 13 taskA)"
    using th1 by simp
  from s0 a b c show ?thesis
    by blast
qed

section \<open>Creation without a deadline\<close>

text \<open>
  With an empty deadline text and the other inputs valid, \<open>addTodoOperation\<close> does not
  fail: run at 11:00 on 2024-03-15 it adds the task, with that day as its deadline.
\<close>

theorem addTodoOperation_absent_deadline_counterexample:
  "addTodoOperation [] morning morning morning ''buy milk'' ''2 litres'' [] ''1''
     = ([\<lparr>Priority = 1, Deadline = Date 2024 3 15 0 0 0, AddedAt = morning,
           DoneAt = zeroTime, Done = False, Summary = ''buy milk'',
           Details = ''2 litres''\<rparr>], Inr TodoAdded)"
proof -
  have trim: "TrimSpace ''buy milk'' = ''buy milk''"
    by (simp add: TrimSpace_def asciiSpace_def isSpace2_def isSpace3_def)
  have pr: "stringToPriority ''1'' = Inr (Some 1)"
    by (simp add: stringToPriority_def ParseUint_def isDigit_def digitVal_def maxUint64_def)
  have rd: "Round morning (Hour * 24) = Date 2024 3 15 0 0 0"
    by (simp add: Round_def morning_def time_defs)
  show ?thesis
    by (simp add: addTodoOperation_def stringToDeadline_def trim pr rd isValidPriority_sint)
qed

lemma default_deadline_not_before_today:
  "calendarDay now \<le> calendarDay (Round now (Hour * 24))"
  using Round_day_ge [of now] calendarDay_le_iff [of now "Round now (Hour * 24)"]
  by simp

text \<open>
  C2, as the code has it. For a summary that is not blank and an empty deadline text,
  \<open>createTodo\<close> fails with the error that a deadline is required and returns no task.
  \<open>addTodoOperation\<close> does not fail on the absent deadline: when the priority text is
  empty or gives a valid priority, it appends one task, with a deadline it supplies
  itself from the clock, a day not before today's, and with the other fields as on any
  creation.
\<close>

theorem absent_deadline_at_creation:
  assumes "TrimSpace summary \<noteq> []"
  shows "createTodo nowCheck nowAdded summary details [] priorityStr = Inl DeadlineRequired
         \<and> (stringToPriority priorityStr = Inr None \<longrightarrow>
              (\<exists>t. addTodoOperation todos nowDefault nowCheck nowAdded summary details []
                      priorityStr = (todos @ [t], Inr TodoAdded)
                   \<and> calendarDay nowDefault \<le> calendarDay (Deadline t)
                   \<and> Priority t = 1 \<and> AddedAt t = nowAdded \<and> DoneAt t = zeroTime
                   \<and> \<not> Done t \<and> Summary t = TrimSpace summary \<and> Details t = details))
         \<and> (\<forall>p. stringToPriority priorityStr = Inr (Some p) \<and> isValidPriority p \<longrightarrow>
              (\<exists>t. addTodoOperation todos nowDefault nowCheck nowAdded summary details []
                      priorityStr = (todos @ [t], Inr TodoAdded)
                   \<and> calendarDay nowDefault \<le> calendarDay (Deadline t)
                   \<and> Priority t = p \<and> AddedAt t = nowAdded \<and> DoneAt t = zeroTime
                   \<and> \<not> Done t \<and> Summary t = TrimSpace summary \<and> Details t = details))"
proof -
  have old: "createTodo nowCheck nowAdded summary details [] priorityStr = Inl DeadlineRequired"
    using assms by (simp add: createTodo_def parseDeadline_def)
  have dl: "stringToDeadline [] = Inr None"
    by (simp add: stringToDeadline_def)
  let ?new = "\<lambda>p. \<lparr>Priority = p, Deadline = Round nowDefault (Hour * 24), AddedAt = nowAdded,
                     DoneAt = zeroTime, Done = False, Summary = TrimSpace summary,
                     Details = details\<rparr>"
  have fields: "calendarDay nowDefault \<le> calendarDay (Deadline (?new p))
                \<and> Priority (?new p) = p \<and> AddedAt (?new p) = nowAdded
                \<and> DoneAt (?new p) = zeroTime \<and> \<not> Done (?new p)
                \<and> Summary (?new p) = TrimSpace summary \<and> Details (?new p) = details" for p
    by (simp add: default_deadline_not_before_today)
  have new1: "addTodoOperation todos nowDefault nowCheck nowAdded summary details []
                priorityStr = (todos @ [?new 1], Inr TodoAdded)"
    if "stringToPriority priorityStr = Inr None"
    using assms that by (simp add: addTodoOperation_def dl)
  have new2: "addTodoOperation todos nowDefault nowCheck nowAdded summary details []
                priorityStr = (todos @ [?new p], Inr TodoAdded)"
    if "stringToPriority priorityStr = Inr (Some p)" "isValidPriority p" for p
    using assms that by (simp add: addTodoOperation_def dl)
  from old new1 new2 fields show ?thesis
    by blast
qed

theorem absent_deadline_at_creation_witness:
  "createTodo morning morning ''buy milk'' ''2 litres'' [] ''1'' = Inl DeadlineRequired
   \<and> (\<exists>t. addTodoOperation [callMum] morning morning morning ''buy milk'' ''2 litres'' [] []
             = ([callMum, t], Inr TodoAdded)
          \<and> calendarDay morning \<le> calendarDay (Deadline t)
          \<and> Priority t = 1 \<and> Summary t = ''buy milk'')
   \<and> (\<exists>t. addTodoOperation [callMum] morning morning morning ''buy milk'' ''2 litres'' []
             ''4'' = ([callMum, t], Inr TodoAdded)
          \<and> calendarDay morning \<le> calendarDay (Deadline t)
          \<and> Priority t = 4 \<and> Summary t = ''buy milk'')"
proof -
  have trim: "TrimSpace ''buy milk'' = ''buy milk''"
    by (simp add: TrimSpace_def asciiSpace_def isSpace2_def isSpace3_def)
  then have ne: "TrimSpace ''buy milk'' \<noteq> []"
    by simp
  have p0: "stringToPriority [] = Inr None"
    by (simp add: stringToPriority_def)
  have p4: "stringToPriority ''4'' = Inr (Some 4) \<and> isValidPriority 4"
    by (simp add: stringToPriority_def ParseUint_def isDigit_def digitVal_def maxUint64_def
        isValidPriority_sint)
  have a: "createTodo morning morning ''buy milk'' ''2 litres'' [] ''1'' = Inl DeadlineRequired"
    using absent_deadline_at_creation [OF ne] by blast
  have b: "\<exists>t. addTodoOperation [callMum] morning morning morning ''buy milk'' ''2 litres''
                  [] [] = ([callMum] @ [t], Inr TodoAdded)
               \<and> calendarDay morning \<le> calendarDay (Deadline t)
               \<and> Priority t = 1 \<and> Summary t = TrimSpace ''buy milk''"
    using absent_deadline_at_creation [OF ne, where priorityStr = "[]"
            and nowCheck = morning and nowAdded = morning and nowDefault = morning
            and details = "''2 litres''" and todos = "[callMum]",
            THEN conjunct2, THEN conjunct1, rule_format, OF p0]
    by blast
  have c: "\<exists>t. addTodoOperation [callMum] morning morning morning ''buy milk'' ''2 litres''
                  [] ''4'' = ([callMum] @ [t], Inr TodoAdded)
               \<and> calendarDay morning \<le> calendarDay (Deadline t)
               \<and> Priority t = 4 \<and> Summary t = TrimSpace ''buy milk''"
    using absent_deadline_at_creation [OF ne, where priorityStr = "''4''"
            and nowCheck = morning and nowAdded = morning and nowDefault = morning
            and details = "''2 litres''" and todos = "[callMum]",
            THEN conjunct2, THEN conjunct2, rule_format, OF p4]
    by blast
  from a b c show ?thesis
    by (simp add: trim)
qed

end
